theory Spec2Isabelle
  imports Main
begin

section \<open>Python values used by the board and the engine\<close>

text \<open>
  Exceptions are values.  \<open>IndexError\<close> and \<open>ValueError\<close> are the two built-in
  exceptions the source can raise (list indexing out of range, \<open>int()\<close> of a
  non-digit, \<open>max()\<close> of an empty sequence).  \<open>FormatError\<close> and \<open>InvalidState\<close>
  are the error kinds named by the specification; no statement of the source
  raises them, they are here so that statements about them can be written.
\<close>

datatype error = IndexError | ValueError | FormatError | InvalidState

text \<open>Sequencing of computations that may raise, and Python's short-circuit \<open>and\<close>.\<close>

definition ebind :: "error + 'a \<Rightarrow> ('a \<Rightarrow> error + 'b) \<Rightarrow> error + 'b" where
  "ebind m f = (case m of Inl e \<Rightarrow> Inl e | Inr x \<Rightarrow> f x)"

definition eand :: "error + bool \<Rightarrow> error + bool \<Rightarrow> error + bool" where
  "eand a b = (case a of Inl e \<Rightarrow> Inl e | Inr x \<Rightarrow> if x then b else Inr False)"

text \<open>
  \<open>xs[i]\<close> on a Python list: a negative index counts from the end, anything
  outside \<open>[-len, len)\<close> raises IndexError.  \<open>py_index\<close> is the position read.
\<close>

definition py_index :: "'a list \<Rightarrow> int \<Rightarrow> nat" where
  "py_index xs i = nat (if i < 0 then int (length xs) + i else i)"

definition py_get :: "'a list \<Rightarrow> int \<Rightarrow> error + 'a" where
  "py_get xs i =
     (if - int (length xs) \<le> i \<and> i < int (length xs)
      then Inr (xs ! py_index xs i) else Inl IndexError)"

text \<open>\<open>range(a, b)\<close>; \<open>range(n)\<close> is \<open>py_range 0 n\<close>.\<close>

definition py_range :: "int \<Rightarrow> int \<Rightarrow> int list" where
  "py_range a b = [a..b - 1]"

text \<open>
  A Python \<open>str\<close> is a sequence of Unicode code points.  \<open>cp\<close> is the code point
  of an ASCII character (\<open>ord\<close>), \<open>lit\<close> the \<open>str\<close> of an ASCII literal.
\<close>

type_synonym py_str = "nat list"

definition cp :: "char \<Rightarrow> nat" where
  "cp c = of_char c"

definition lit :: "string \<Rightarrow> py_str" where
  "lit s = map cp s"

text \<open>
  \<open>int(c)\<close> for a one-character string \<open>c\<close>: a decimal digit has its value, every
  other character raises ValueError, here \<open>None\<close>.  Among the ASCII characters
  the decimal digits are \<open>'0'\<close> to \<open>'9'\<close>.  Which characters beyond ASCII are
  decimal digits, and with which value, is laid down by the Unicode database of
  the interpreter and not by the program: \<open>dec\<close> stands for that table (for
  example U+0662, ARABIC-INDIC DIGIT TWO, has the value 2), and every function
  that converts a character takes it as its first argument.
\<close>

definition py_int_char :: "(nat \<Rightarrow> int option) \<Rightarrow> nat \<Rightarrow> int option" where
  "py_int_char dec c =
     (if c < 128
      then (if cp (CHR ''0'') \<le> c \<and> c \<le> cp (CHR ''9'')
            then Some (int c - int (cp (CHR ''0''))) else None)
      else dec c)"

text \<open>
  A fragment of the Unicode table, for running the model on concrete strings:
  the Arabic-Indic digits U+0660 to U+0669 and no other character.
\<close>

definition arabic_indic :: "nat \<Rightarrow> int option" where
  "arabic_indic c = (if 1632 \<le> c \<and> c \<le> 1641 then Some (int c - 1632) else None)"

text \<open>\<open>" ".join(chunks)\<close> and \<open>s.split(" ")\<close>.\<close>

fun join_sp :: "py_str list \<Rightarrow> py_str" where
  "join_sp [] = []"
| "join_sp [x] = x"
| "join_sp (x # y # ys) = x @ cp (CHR '' '') # join_sp (y # ys)"

fun split_sp :: "py_str \<Rightarrow> py_str list" where
  "split_sp [] = [[]]"
| "split_sp (c # cs) =
     (if c = cp (CHR '' '') then [] # split_sp cs
      else (case split_sp cs of [] \<Rightarrow> [[c]] | w # ws \<Rightarrow> (c # w) # ws))"

section \<open>The board (game.py, class C4Board)\<close>

text \<open>
  The attributes of a \<open>C4Board\<close> object.  \<open>_board\<close>, \<open>_result\<close>, \<open>_win_reason\<close> and
  \<open>_turn\<close> lose their leading underscore; \<open>size\<close> is \<open>size_cr\<close> (columns, rows).
  A piece is \<open>False\<close> for player 1 and \<open>True\<close> for player 2; a column is the list
  of its pieces, bottom first.
\<close>

record C4Board =
  board :: "bool list list"
  size_cr :: "int \<times> int"
  connect_num :: int
  result :: int
  win_reason :: int
  turn :: bool
  win_locs :: "(int \<times> int) list"

text \<open>\<open>__init__(cols, rows, connect_num)\<close>.\<close>

definition C4Board_init :: "int \<Rightarrow> int \<Rightarrow> int \<Rightarrow> C4Board" where
  "C4Board_init cols rows cn =
     \<lparr> board = map (\<lambda>i. []) (py_range 0 cols), size_cr = (cols, rows), connect_num = cn,
       result = 0, win_reason = 0, turn = False, win_locs = [] \<rparr>"

subsection \<open>check_result\<close>

text \<open>\<open>len(self._board[i]) > j\<close> and \<open>self._board[i][j]\<close>, either of which may raise.\<close>

definition col_longer :: "bool list list \<Rightarrow> int \<Rightarrow> int \<Rightarrow> error + bool" where
  "col_longer bd i j = ebind (py_get bd i) (\<lambda>c. Inr (int (length c) > j))"

definition cell :: "bool list list \<Rightarrow> int \<Rightarrow> int \<Rightarrow> error + bool" where
  "cell bd i j = ebind (py_get bd i) (\<lambda>c. py_get c j)"

text \<open>
  The chained comparison \<open>a == b == c == d\<close>: operands are evaluated left to
  right and evaluation stops at the first unequal pair.
\<close>

definition chain_eq ::
  "error + bool \<Rightarrow> error + bool \<Rightarrow> error + bool \<Rightarrow> error + bool \<Rightarrow> error + bool" where
  "chain_eq a b c d =
     ebind a (\<lambda>x. ebind b (\<lambda>y. if x \<noteq> y then Inr False else
     ebind c (\<lambda>z. if y \<noteq> z then Inr False else
     ebind d (\<lambda>w. Inr (z = w)))))"

text \<open>
  The condition of the three scans that walk over four neighbouring columns
  \<open>i, i + 1, i + 2, i + 3\<close>.  They differ only in the row step \<open>d\<close>: \<open>1\<close> for the
  first diagonal scan (rows \<open>j, j + 1, j + 2, j + 3\<close>), \<open>-1\<close> for the second
  (rows \<open>j, j - 1, j - 2, j - 3\<close>), \<open>0\<close> for the row scan.  The offsets \<open>1, 2, 3\<close>
  are literals in the source; they do not follow \<open>connect_num\<close>.
\<close>

definition line_at :: "bool list list \<Rightarrow> int \<Rightarrow> int \<Rightarrow> int \<Rightarrow> error + bool" where
  "line_at bd d i j =
     eand (col_longer bd i j)
    (eand (col_longer bd (i + 1) (j + d))
    (eand (col_longer bd (i + 2) (j + 2 * d))
    (eand (col_longer bd (i + 3) (j + 3 * d))
      (chain_eq (cell bd i j) (cell bd (i + 1) (j + d))
                (cell bd (i + 2) (j + 2 * d)) (cell bd (i + 3) (j + 3 * d))))))"

text \<open>The condition of the column scan: four pieces of one column from row \<open>piece\<close> up.\<close>

definition column_at :: "bool list list \<Rightarrow> int \<Rightarrow> int \<Rightarrow> error + bool" where
  "column_at bd col piece =
     chain_eq (cell bd col piece) (cell bd col (piece + 1))
              (cell bd col (piece + 2)) (cell bd col (piece + 3))"

text \<open>
  The nested loops \<open>for i in ...: for j in range(...): if cond: ...; return\<close>.
  \<open>rng i\<close> is the inner range, computed when the outer loop reaches \<open>i\<close> (it may
  raise); the result is the first \<open>(i, j)\<close> at which the condition holds.
\<close>

fun scan_inner :: "(int \<Rightarrow> error + bool) \<Rightarrow> int list \<Rightarrow> error + int option" where
  "scan_inner p [] = Inr None"
| "scan_inner p (j # js) =
     (case p j of Inl e \<Rightarrow> Inl e
      | Inr hit \<Rightarrow> if hit then Inr (Some j) else scan_inner p js)"

fun scan_outer ::
  "(int \<Rightarrow> error + int list) \<Rightarrow> (int \<Rightarrow> int \<Rightarrow> error + bool) \<Rightarrow> int list
     \<Rightarrow> error + (int \<times> int) option" where
  "scan_outer rng p [] = Inr None"
| "scan_outer rng p (i # is) =
     (case rng i of Inl e \<Rightarrow> Inl e
      | Inr js \<Rightarrow>
         (case scan_inner (p i) js of Inl e \<Rightarrow> Inl e
          | Inr (Some j) \<Rightarrow> Inr (Some (i, j))
          | Inr None \<Rightarrow> scan_outer rng p is))"

text \<open>\<open>len(self._board[i])\<close>.\<close>

definition col_len :: "bool list list \<Rightarrow> int \<Rightarrow> error + int" where
  "col_len bd i = ebind (py_get bd i) (\<lambda>c. Inr (int (length c)))"

text \<open>The four scans, in the order of the source.\<close>

definition scan_diag_up :: "C4Board \<Rightarrow> error + (int \<times> int) option" where
  "scan_diag_up b =
     scan_outer (\<lambda>i. ebind (col_len (board b) i) (\<lambda>n. Inr (py_range 0 (n - connect_num b + 1))))
       (line_at (board b) 1)
       (py_range 0 (fst (size_cr b) - connect_num b + 1))"

definition scan_diag_down :: "C4Board \<Rightarrow> error + (int \<times> int) option" where
  "scan_diag_down b =
     scan_outer (\<lambda>i. ebind (col_len (board b) i) (\<lambda>n. Inr (py_range (connect_num b - 1) n)))
       (line_at (board b) (- 1))
       (py_range 0 (fst (size_cr b) - connect_num b + 1))"

definition scan_row :: "C4Board \<Rightarrow> error + (int \<times> int) option" where
  "scan_row b =
     scan_outer (\<lambda>i. ebind (col_len (board b) i) (\<lambda>n. Inr (py_range 0 n)))
       (line_at (board b) 0)
       (py_range 0 (fst (size_cr b) - connect_num b + 1))"

definition scan_column :: "C4Board \<Rightarrow> error + (int \<times> int) option" where
  "scan_column b =
     scan_outer (\<lambda>col. ebind (col_len (board b) col) (\<lambda>n.
                   Inr (if n < connect_num b then [] else py_range 0 (n - connect_num b + 1))))
       (column_at (board b))
       (py_range 0 (int (length (board b))))"

definition or_else ::
  "error + (int \<times> int) option \<Rightarrow> error + (int \<times> int) option \<Rightarrow> error + (int \<times> int) option" where
  "or_else a b = (case a of Inl e \<Rightarrow> Inl e | Inr None \<Rightarrow> b | Inr (Some x) \<Rightarrow> Inr (Some x))"

definition find_run :: "C4Board \<Rightarrow> error + (int \<times> int) option" where
  "find_run b =
     or_else (scan_diag_up b) (or_else (scan_diag_down b) (or_else (scan_row b) (scan_column b)))"

text \<open>\<open>3 if v else 2 if v == False else 0\<close> for the piece \<open>v\<close> that starts the run.\<close>

definition winner_code :: "bool \<Rightarrow> int" where
  "winner_code v = (if v then 3 else if v = False then 2 else 0)"

text \<open>
  \<open>check_result\<close>: a board whose columns all have \<open>size[1]\<close> pieces is a draw, before
  any scan; otherwise the first run found decides, and no run means no result.
  When a scan raises, the object is left as it was.
\<close>

definition check_result :: "C4Board \<Rightarrow> (error \<times> C4Board) + C4Board" where
  "check_result b =
     (if list_all (\<lambda>col. int (length col) = snd (size_cr b)) (board b)
      then Inr (b\<lparr>result := 1\<rparr>)
      else (case find_run b of
              Inl e \<Rightarrow> Inl (e, b)
            | Inr None \<Rightarrow> Inr (b\<lparr>result := 0\<rparr>)
            | Inr (Some (i, j)) \<Rightarrow>
               (case cell (board b) i j of
                  Inl e \<Rightarrow> Inl (e, b)
                | Inr v \<Rightarrow> Inr (b\<lparr>result := winner_code v\<rparr>))))"

subsection \<open>Moves\<close>

text \<open>
  \<open>make_move_at_column\<close>.  The piece is appended and the turn flipped before
  \<open>check_result\<close> runs, so an exception raised there leaves both changes behind.
\<close>

definition make_move_at_column :: "C4Board \<Rightarrow> int \<Rightarrow> (error \<times> C4Board) + (bool \<times> C4Board)" where
  "make_move_at_column b col =
     (if col < 0 \<or> col \<ge> fst (size_cr b) then Inr (False, b)
      else (case py_get (board b) col of
              Inl e \<Rightarrow> Inl (e, b)
            | Inr c \<Rightarrow>
               if int (length c) = snd (size_cr b) then Inr (False, b)
               else (case check_result
                            (b\<lparr>board := (board b)[py_index (board b) col := c @ [turn b]],
                               turn := \<not> turn b\<rparr>) of
                       Inl (e, b') \<Rightarrow> Inl (e, b')
                     | Inr b' \<Rightarrow> Inr (True, b'))))"

text \<open>\<open>delete_move_at_column\<close>: the column argument is used as a list index as it is.\<close>

definition delete_move_at_column :: "C4Board \<Rightarrow> int \<Rightarrow> (error \<times> C4Board) + (bool \<times> C4Board)" where
  "delete_move_at_column b col =
     (case py_get (board b) col of
        Inl e \<Rightarrow> Inl (e, b)
      | Inr c \<Rightarrow>
         if length c = 0 then Inr (False, b)
         else Inr (True, b\<lparr>board := (board b)[py_index (board b) col := butlast c],
                            turn := \<not> turn b, result := 0, win_reason := 0, win_locs := []\<rparr>))"

text \<open>\<open>all_available_moves\<close>: the list comprehension over \<open>range(self.size[0])\<close>.\<close>

fun available_in :: "bool list list \<Rightarrow> int \<Rightarrow> int list \<Rightarrow> error + int list" where
  "available_in bd rows [] = Inr []"
| "available_in bd rows (i # is) =
     (case py_get bd i of
        Inl e \<Rightarrow> Inl e
      | Inr c \<Rightarrow>
         (case available_in bd rows is of
            Inl e \<Rightarrow> Inl e
          | Inr r \<Rightarrow> Inr (if int (length c) < rows then i # r else r)))"

definition all_available_moves :: "C4Board \<Rightarrow> error + int list" where
  "all_available_moves b = available_in (board b) (snd (size_cr b)) (py_range 0 (fst (size_cr b)))"

definition get_result :: "C4Board \<Rightarrow> int" where
  "get_result b = result b"

subsection \<open>The position string\<close>

text \<open>\<open>get_fen\<close>: one chunk per column, rightmost column first, then the turn.\<close>

definition piece_char :: "bool \<Rightarrow> nat" where
  "piece_char item = (if item then cp (CHR ''2'') else cp (CHR ''1''))"

definition get_fen :: "C4Board \<Rightarrow> py_str" where
  "get_fen b =
     join_sp (rev (map (map piece_char) (board b))) @ lit '' '' @
       (if turn b then lit ''2'' else lit ''1'')"

text \<open>
  \<open>set_position\<close>.  The loop over the characters of a chunk keeps \<open>'1'\<close> and \<open>'2'\<close>
  and passes over every other character.  \<open>self._board = []\<close> is the first
  statement, so the exceptions of \<open>int(fen[-1])\<close> (IndexError for the empty string,
  ValueError for a last character that is no digit) leave an empty column list.
\<close>

fun parse_chunk :: "py_str \<Rightarrow> bool list" where
  "parse_chunk [] = []"
| "parse_chunk (c # cs) =
     (if c = cp (CHR ''1'') then False # parse_chunk cs
      else if c = cp (CHR ''2'') then True # parse_chunk cs
      else parse_chunk cs)"

definition set_position ::
  "(nat \<Rightarrow> int option) \<Rightarrow> C4Board \<Rightarrow> py_str \<Rightarrow> (error \<times> C4Board) + C4Board" where
  "set_position dec b fen =
     (if fen = [] then Inl (IndexError, b\<lparr>board := []\<rparr>)
      else (case py_int_char dec (last fen) of
              None \<Rightarrow> Inl (ValueError, b\<lparr>board := []\<rparr>)
            | Some n \<Rightarrow>
               Inr (b\<lparr>board := rev (map parse_chunk (split_sp (take (length fen - 2) fen))),
                      turn := (n = 2)\<rparr>)))"

text \<open>
  A sequence of \<open>make_move_at_column\<close> calls on one board, as the game loop issues
  them; the returned flags are dropped.
\<close>

fun make_moves :: "C4Board \<Rightarrow> int list \<Rightarrow> (error \<times> C4Board) + C4Board" where
  "make_moves b [] = Inr b"
| "make_moves b (c # cs) =
     (case make_move_at_column b c of
        Inl err \<Rightarrow> Inl err
      | Inr (ok, b') \<Rightarrow> make_moves b' cs)"


section \<open>The engine (engine.py, class C4Engine)\<close>

text \<open>
  The attributes of a \<open>C4Engine\<close> object: the transposition table (a dict from
  position strings to evaluations), the counter \<open>_lookups\<close> (here \<open>priv_lookups\<close>),
  \<open>PLY_LIMIT\<close>, and the attribute \<open>lookups\<close> that \<open>bestmoves\<close> creates by its
  assignment \<open>self.lookups = 0\<close> (\<open>None\<close> while it does not exist).  What the
  methods print is left out.  An engine method that raises returns the
  exception alone.
\<close>

record C4Engine =
  ttable :: "py_str \<rightharpoonup> int"
  priv_lookups :: int
  PLY_LIMIT :: int
  lookups :: "int option"

definition C4Engine_init :: C4Engine where
  "C4Engine_init = \<lparr> ttable = Map.empty, priv_lookups = 0, PLY_LIMIT = 10, lookups = None \<rparr>"

definition evaluate_position :: "C4Board \<Rightarrow> int" where
  "evaluate_position b =
     (let r = get_result b in
      if r = 0 then 0 else if r = 1 then 0 else if r = 2 then 100
      else if r = 3 then - 100 else 0)"

text \<open>
  \<open>negamax\<close>, with the loop over the available moves as \<open>negamax_moves\<close>; the
  loop carries \<open>alpha\<close> and \<open>best_value\<close>, and the board and the engine as the calls
  leave them.  \<open>PLY_LIMIT\<close> is assigned in \<open>__init__\<close> only, so the recursion takes
  it as the argument \<open>lim\<close>; \<open>negamax\<close> below passes the attribute.  \<open>dec\<close> is the
  Unicode table that \<open>set_position\<close> consults.
\<close>

function negamax_lim ::
    "(nat \<Rightarrow> int option) \<Rightarrow> int \<Rightarrow> C4Engine \<Rightarrow> C4Board \<Rightarrow> int \<Rightarrow> int \<Rightarrow> int \<Rightarrow> error + (int \<times> C4Board \<times> C4Engine)"
  and negamax_moves ::
    "(nat \<Rightarrow> int option) \<Rightarrow> int \<Rightarrow> C4Engine \<Rightarrow> C4Board \<Rightarrow> int \<Rightarrow> int \<Rightarrow> int \<Rightarrow> int \<Rightarrow> int list
       \<Rightarrow> error + (int \<times> C4Board \<times> C4Engine)" where
  "negamax_lim dec lim e b alpha beta ply =
     (if ply \<ge> lim then Inr (evaluate_position b, b, e)
      else if get_result b \<ge> 2 then Inr (- 100, b, e)
      else if get_result b = 1 then Inr (0, b, e)
      else (case ttable e (get_fen b) of
              Some ttable_eval \<Rightarrow> Inr (ttable_eval, b, e\<lparr>priv_lookups := priv_lookups e + 1\<rparr>)
            | None \<Rightarrow>
               (case all_available_moves b of
                  Inl err \<Rightarrow> Inl err
                | Inr ms \<Rightarrow>
                   (case negamax_moves dec lim e b alpha beta ply (- 100) ms of
                      Inl err \<Rightarrow> Inl err
                    | Inr (best_value, b', e') \<Rightarrow>
                       Inr (best_value, b',
                            e'\<lparr>ttable := (ttable e')(get_fen b' \<mapsto> best_value)\<rparr>)))))"
| "negamax_moves dec lim e b alpha beta ply best_value [] = Inr (best_value, b, e)"
| "negamax_moves dec lim e b alpha beta ply best_value (m # ms) =
     (case make_move_at_column b m of
        Inl (err, b1) \<Rightarrow> Inl err
      | Inr (ok, b1) \<Rightarrow>
         (case negamax_lim dec lim e b1 (- beta) (- alpha) (ply + 1) of
            Inl err \<Rightarrow> Inl err
          | Inr (r, b2, e2) \<Rightarrow>
             (case set_position dec b2 (get_fen b) of
                Inl (err, b3) \<Rightarrow> Inl err
              | Inr b3 \<Rightarrow>
                 if max alpha (- r) \<ge> beta then Inr (max best_value (- r), b3, e2)
                 else negamax_moves dec lim e2 b3 (max alpha (- r)) beta ply
                        (max best_value (- r)) ms)))"
  by pat_completeness auto
termination
  by (relation "inv_image (less_than <*lex*> less_than <*lex*> less_than)
        (\<lambda>x. case x of
           Inl (dec, lim, e, b, alpha, beta, ply) \<Rightarrow> (nat (lim - ply), Suc 0, 0)
         | Inr (dec, lim, e, b, alpha, beta, ply, best_value, ms) \<Rightarrow>
             (Suc (nat (lim - (ply + 1))), 0, length ms))")
     auto

definition negamax :: "(nat \<Rightarrow> int option) \<Rightarrow> C4Engine \<Rightarrow> C4Board \<Rightarrow> int \<Rightarrow> int \<Rightarrow> int \<Rightarrow> error + (int \<times> C4Board \<times> C4Engine)" where
  "negamax dec e b alpha beta ply = negamax_lim dec (PLY_LIMIT e) e b alpha beta ply"

text \<open>
  \<open>bestmoves\<close>.  The dict \<open>evals\<close> is a list of pairs in insertion order
  (\<open>evals[col] = eval\<close> is \<open>dict_set\<close>); \<open>max\<close> of no values raises ValueError.
\<close>

fun dict_set :: "(int \<times> int) list \<Rightarrow> int \<Rightarrow> int \<Rightarrow> (int \<times> int) list" where
  "dict_set [] k v = [(k, v)]"
| "dict_set ((k', v') # kvs) k v =
     (if k' = k then (k, v) # kvs else (k', v') # dict_set kvs k v)"

definition py_max :: "int list \<Rightarrow> error + int" where
  "py_max xs = (case xs of [] \<Rightarrow> Inl ValueError | x # rest \<Rightarrow> Inr (fold max rest x))"

fun bestmoves_loop ::
  "(nat \<Rightarrow> int option) \<Rightarrow> py_str \<Rightarrow> C4Engine \<Rightarrow> C4Board \<Rightarrow> (int \<times> int) list \<Rightarrow> int list
     \<Rightarrow> error + ((int \<times> int) list \<times> C4Board \<times> C4Engine)" where
  "bestmoves_loop dec currfen e b evals [] = Inr (evals, b, e)"
| "bestmoves_loop dec currfen e b evals (col # cols) =
     (case make_move_at_column b col of
        Inl (err, b1) \<Rightarrow> Inl err
      | Inr (ok, b1) \<Rightarrow>
         (case negamax dec e b1 (- 100) 100 0 of
            Inl err \<Rightarrow> Inl err
          | Inr (r, b2, e2) \<Rightarrow>
             (case set_position dec b2 currfen of
                Inl (err, b3) \<Rightarrow> Inl err
              | Inr b3 \<Rightarrow> bestmoves_loop dec currfen e2 b3 (dict_set evals col (- r)) cols)))"

definition bestmoves :: "(nat \<Rightarrow> int option) \<Rightarrow> C4Engine \<Rightarrow> C4Board \<Rightarrow> error + (int list \<times> C4Board \<times> C4Engine)" where
  "bestmoves dec e b =
     (case all_available_moves b of
        Inl err \<Rightarrow> Inl err
      | Inr cols \<Rightarrow>
         (case bestmoves_loop dec (get_fen b) (e\<lparr>lookups := Some 0\<rparr>) b [] cols of
            Inl err \<Rightarrow> Inl err
          | Inr (evals, b', e') \<Rightarrow>
             (case py_max (map snd evals) of
                Inl err \<Rightarrow> Inl err
              | Inr max_eval \<Rightarrow>
                 Inr (map fst (filter (\<lambda>(i, v). v = max_eval) evals), b',
                      e'\<lparr>priv_lookups := 0\<rparr>))))"


text \<open>Every evaluation stored in the transposition table lies in \<open>[-100, 100]\<close>.\<close>

definition ttable_ok :: "C4Engine \<Rightarrow> bool" where
  "ttable_ok e = (\<forall>k v. ttable e k = Some v \<longrightarrow> - 100 \<le> v \<and> v \<le> 100)"

text \<open>
  The engines a session can hold: the fresh engine of \<open>__init__\<close>, an engine whose
  \<open>PLY_LIMIT\<close> was assigned, and what \<open>negamax\<close> and \<open>bestmoves\<close> calls that
  return normally make of such an engine, on any board.
\<close>

inductive engine_state :: "C4Engine \<Rightarrow> bool" where
  fresh: "engine_state C4Engine_init"
| limit: "engine_state e \<Longrightarrow> engine_state (e\<lparr>PLY_LIMIT := lim\<rparr>)"
| searched: "engine_state e \<Longrightarrow> negamax dec e b alpha beta ply = Inr (v, b', e')
               \<Longrightarrow> engine_state e'"
| advised: "engine_state e \<Longrightarrow> bestmoves dec e b = Inr (cols, b', e') \<Longrightarrow> engine_state e'"

text \<open>
  The boards a game can hold: the fresh board of \<open>__init__\<close>, and what the calls
  \<open>make_move_at_column\<close>, \<open>delete_move_at_column\<close> and \<open>set_turn\<close> that return
  normally make of such a board.
\<close>

definition set_turn :: "C4Board \<Rightarrow> int \<Rightarrow> C4Board" where
  "set_turn b player_num = b\<lparr>turn := (player_num = 2)\<rparr>"

inductive reachable :: "int \<Rightarrow> int \<Rightarrow> int \<Rightarrow> C4Board \<Rightarrow> bool"
  for cols :: int and rows :: int and cn :: int where
  init: "reachable cols rows cn (C4Board_init cols rows cn)"
| move: "reachable cols rows cn b \<Longrightarrow> make_move_at_column b c = Inr (ok, b')
           \<Longrightarrow> reachable cols rows cn b'"
| undo: "reachable cols rows cn b \<Longrightarrow> delete_move_at_column b c = Inr (ok, b')
           \<Longrightarrow> reachable cols rows cn b'"
| player: "reachable cols rows cn b \<Longrightarrow> reachable cols rows cn (set_turn b n)"

section \<open>Properties of the position string\<close>

lemma parse_chunk_piece_chars: "parse_chunk (map piece_char col) = col"
  by (induction col) (auto simp: piece_char_def cp_def)

lemma split_sp_no_space: "cp (CHR '' '') \<notin> set w \<Longrightarrow> split_sp w = [w]"
  by (induction w) auto

lemma split_sp_append_space:
  "cp (CHR '' '') \<notin> set w \<Longrightarrow> split_sp (w @ cp (CHR '' '') # rest) = w # split_sp rest"
  by (induction w) auto

lemma split_sp_join_sp:
  "chunks \<noteq> [] \<Longrightarrow> \<forall>c \<in> set chunks. cp (CHR '' '') \<notin> set c
     \<Longrightarrow> split_sp (join_sp chunks) = chunks"
  by (induction chunks rule: join_sp.induct)
     (auto simp: split_sp_no_space split_sp_append_space)

text \<open>
  Decoding the string of a board with at least one column, into any board
  object, installs exactly the columns and the turn of the encoded board.
\<close>

lemma get_fen_decode:
  assumes "board b \<noteq> []"
  shows "set_position dec b0 (get_fen b) = Inr (b0\<lparr>board := board b, turn := turn b\<rparr>)"
proof -
  let ?chunks = "rev (map (map piece_char) (board b))"
  have ne: "?chunks \<noteq> []" using assms by simp
  have ns: "\<forall>c \<in> set ?chunks. cp (CHR '' '') \<notin> set c"
    by (auto simp: piece_char_def cp_def)
  have sp: "split_sp (join_sp ?chunks) = ?chunks"
    using split_sp_join_sp[OF ne ns] .
  have pc: "map parse_chunk (map (map piece_char) (board b)) = board b"
    by (simp add: parse_chunk_piece_chars map_idI)
  show ?thesis
    using sp pc
    by (cases "turn b")
       (simp_all add: set_position_def get_fen_def py_int_char_def rev_map lit_def cp_def)
qed

section \<open>What the board operations keep\<close>

lemma check_result_only_result:
  "check_result b = Inr b' \<Longrightarrow> b' = b\<lparr>result := result b'\<rparr>"
  by (auto simp: check_result_def split: if_splits sum.splits option.splits prod.splits)

lemma make_move_length:
  assumes "make_move_at_column b c = Inr (ok, b')"
  shows "length (board b') = length (board b)"
proof (cases ok)
  case False
  with assms have "b' = b"
    by (auto simp: make_move_at_column_def split: if_splits sum.splits prod.splits)
  then show ?thesis by simp
next
  case True
  with assms obtain col where
    cr: "check_result (b\<lparr>board := (board b)[py_index (board b) c := col @ [turn b]],
                          turn := \<not> turn b\<rparr>) = Inr b'"
    by (auto simp: make_move_at_column_def split: if_splits sum.splits prod.splits)
  have "board b' = (board b)[py_index (board b) c := col @ [turn b]]"
    using check_result_only_result[OF cr]
    by (metis C4Board.select_convs(1) C4Board.surjective C4Board.update_convs(1)
        C4Board.update_convs(4) C4Board.update_convs(6))
  then show ?thesis by simp
qed

lemma delete_move_length:
  "delete_move_at_column b c = Inr (ok, b') \<Longrightarrow> length (board b') = length (board b)"
  by (auto simp: delete_move_at_column_def split: if_splits sum.splits)

lemma reachable_columns:
  "reachable cols rows cn b \<Longrightarrow> length (board b) = nat cols"
proof (induction rule: reachable.induct)
  case init
  show ?case by (simp add: C4Board_init_def py_range_def)
next
  case (move b c ok b')
  then show ?case using make_move_length by simp
next
  case (undo b c ok b')
  then show ?case using delete_move_length by simp
next
  case (player b n)
  then show ?case by (simp add: set_turn_def)
qed

section \<open>The position string round trip\<close>

text \<open>
  The fresh board without columns: its string is \<open>" 1"\<close>, and decoding that gives a
  board with one empty column.
\<close>

lemma no_columns_decode:
  "get_fen (C4Board_init 0 6 4) = lit '' 1''
   \<and> set_position dec (C4Board_init 0 6 4) (lit '' 1'') =
       Inr ((C4Board_init 0 6 4)\<lparr>board := [[]]\<rparr>)"
  by (simp add: get_fen_def set_position_def py_int_char_def lit_def cp_def C4Board_init_def
        py_range_def)

text \<open>
  Claim C1.  For every board reachable on a board of positive column count
  (from the fresh board, through \<open>make_move_at_column\<close>, \<open>delete_move_at_column\<close>
  and a change of the player to move), decoding the string produced by \<open>get_fen\<close>
  succeeds and installs exactly the columns and the turn of the encoded board,
  whatever board object \<open>b0\<close> it is decoded into; decoded into the board itself
  it leaves the columns and the turn as they are.  The data model has at least
  one column.
\<close>

theorem fen_round_trip:
  assumes "0 < cols" and "reachable cols rows cn b"
  shows "set_position dec b0 (get_fen b) = Inr (b0\<lparr>board := board b, turn := turn b\<rparr>)"
proof -
  have "length (board b) = nat cols" using assms(2) by (rule reachable_columns)
  with assms(1) have "board b \<noteq> []" by auto
  then show ?thesis by (rule get_fen_decode)
qed

theorem fen_round_trip_witness:
  "(0::int) < 7 \<and> reachable 7 6 4 (C4Board_init 7 6 4\<lparr>board := [[], [], [], [False], [], [], []], turn := True\<rparr>)
   \<and> set_position arabic_indic (C4Board_init 7 6 4) (lit ''   1    2'') =
       Inr (C4Board_init 7 6 4\<lparr>board := [[], [], [], [False], [], [], []], turn := True\<rparr>)"
proof -
  let ?b = "C4Board_init 7 6 4\<lparr>board := [[], [], [], [False], [], [], []], turn := True\<rparr>"
  have mv: "make_move_at_column (C4Board_init 7 6 4) 3 = Inr (True, ?b)"
    by code_simp
  have r: "reachable 7 6 4 ?b"
    by (rule reachable.move[OF reachable.init mv])
  have f: "get_fen ?b = lit ''   1    2''" by code_simp
  have e: "(C4Board_init 7 6 4)\<lparr>board := board ?b, turn := turn ?b\<rparr> = ?b" by simp
  show ?thesis
    using fen_round_trip[of 7 6 4 ?b arabic_indic "C4Board_init 7 6 4"] r f e by simp
qed

section \<open>Move and undo\<close>

lemma py_get_nonneg:
  "0 \<le> i \<Longrightarrow> py_get xs i = Inr x \<Longrightarrow> nat i < length xs \<and> py_index xs i = nat i \<and> xs ! nat i = x"
  by (auto simp: py_get_def py_index_def split: if_splits)

text \<open>
  Claim C8.  When \<open>make_move_at_column b c\<close> succeeds (returns \<open>True\<close>), the following
  \<open>delete_move_at_column\<close> on the same column succeeds as well and yields a board
  with the position string, the columns and the turn of \<open>b\<close>.
\<close>

theorem move_undo_restores_fen:
  assumes "make_move_at_column b c = Inr (True, b1)"
  shows "\<exists>b2. delete_move_at_column b1 c = Inr (True, b2) \<and> get_fen b2 = get_fen b
            \<and> board b2 = board b \<and> turn b2 = turn b"
proof -
  from assms obtain col where c0: "0 \<le> c"
    and g: "py_get (board b) c = Inr col"
    and cr: "check_result (b\<lparr>board := (board b)[py_index (board b) c := col @ [turn b]],
                          turn := \<not> turn b\<rparr>) = Inr b1"
    by (auto simp: make_move_at_column_def split: if_splits sum.splits prod.splits)
  from py_get_nonneg[OF c0 g] have lt: "nat c < length (board b)"
    and ix: "py_index (board b) c = nat c" and nthc: "board b ! nat c = col" by auto
  have b1: "b1 = b\<lparr>board := (board b)[nat c := col @ [turn b]], turn := \<not> turn b,
                   result := result b1\<rparr>"
    using check_result_only_result[OF cr] ix by simp
  have bd1: "board b1 = (board b)[nat c := col @ [turn b]]" and t1: "turn b1 = (\<not> turn b)"
    by (subst b1, simp)+
  have g1: "py_get (board b1) c = Inr (col @ [turn b])"
    using lt c0 by (simp add: py_get_def py_index_def bd1)
  have ix1: "py_index (board b1) c = nat c" using c0 by (simp add: py_index_def)
  have restored: "(board b1)[nat c := col] = board b"
    by (simp add: bd1 nthc[symmetric])
  let ?b2 = "b1\<lparr>board := (board b1)[py_index (board b1) c := butlast (col @ [turn b])],
                 turn := \<not> turn b1, result := 0, win_reason := 0, win_locs := []\<rparr>"
  have d: "delete_move_at_column b1 c = Inr (True, ?b2)"
    by (simp add: delete_move_at_column_def g1)
  have "board ?b2 = board b" using restored ix1 by simp
  moreover have "turn ?b2 = turn b" using t1 by simp
  ultimately have "get_fen ?b2 = get_fen b \<and> board ?b2 = board b \<and> turn ?b2 = turn b"
    by (simp add: get_fen_def)
  with d show ?thesis by blast
qed

theorem move_undo_restores_fen_witness:
  "make_move_at_column (C4Board_init 7 6 4) 3 =
     Inr (True, C4Board_init 7 6 4\<lparr>board := [[], [], [], [False], [], [], []], turn := True\<rparr>)
   \<and> (\<exists>b2. delete_move_at_column
              (C4Board_init 7 6 4\<lparr>board := [[], [], [], [False], [], [], []], turn := True\<rparr>) 3
              = Inr (True, b2)
          \<and> get_fen b2 = lit ''       1'')"
proof -
  let ?b = "C4Board_init 7 6 4\<lparr>board := [[], [], [], [False], [], [], []], turn := True\<rparr>"
  have mv: "make_move_at_column (C4Board_init 7 6 4) 3 = Inr (True, ?b)"
    by code_simp
  have f: "get_fen (C4Board_init 7 6 4) = lit ''       1''" by code_simp
  show ?thesis
    using move_undo_restores_fen[OF mv] mv f by auto
qed




section \<open>Result recomputation on concrete games\<close>

text \<open>
  Claim C3 (the code departs from it).  On the default board (7 columns, 6 rows,
  connect 4) the eleventh move of the game below completes the rising diagonal
  \<open>(0,0), (1,1), (2,2), (3,3)\<close> of player 1, and the recomputed result is \<open>0\<close> (no
  result) instead of \<open>2\<close>: the first diagonal scan takes its start rows from
  \<open>range(len(column i) - connect_num + 1)\<close>, so it looks at a start cell only if
  three more pieces lie above it in its own column.  The mirror image of that
  game, which ends on the falling diagonal \<open>(3,3), (4,2), (5,1), (6,0)\<close>, is found
  by the second diagonal scan and gives the result \<open>2\<close>.  With connect 3 on the same
  board size, the fifth move below completes the row \<open>(0,0), (1,0), (2,0)\<close> of
  player 1 and the result is \<open>0\<close> again: every scan compares four cells,
  whatever \<open>connect_num\<close> is.
\<close>

theorem rising_diagonal_not_detected:
  "make_moves (C4Board_init 7 6 4) [3, 1, 0, 2, 1, 2, 2, 3, 6, 3, 3] =
     Inr \<lparr> board = [[False], [True, False], [True, True, False], [False, True, True, False],
                    [], [], [False]],
           size_cr = (7, 6), connect_num = 4, result = 0, win_reason = 0, turn = True,
           win_locs = [] \<rparr>
   \<and> make_moves (C4Board_init 7 6 4) [3, 5, 6, 4, 5, 4, 4, 3, 0, 3, 3] =
     Inr \<lparr> board = [[False], [], [], [False, True, True, False], [True, True, False],
                    [True, False], [False]],
           size_cr = (7, 6), connect_num = 4, result = 2, win_reason = 0, turn = True,
           win_locs = [] \<rparr>
   \<and> make_moves (C4Board_init 7 6 3) [0, 0, 1, 1, 2] =
     Inr \<lparr> board = [[False, True], [False, True], [False], [], [], [], []],
           size_cr = (7, 6), connect_num = 3, result = 0, win_reason = 0, turn = True,
           win_locs = [] \<rparr>"
  by code_simp

text \<open>
  Claim C4 (the code departs from it).  On a board of 5 columns and 2 rows with
  connect 4, after nine moves nobody has a run and one cell is free; the tenth
  move fills the board and completes the row \<open>(0,1), (1,1), (2,1), (3,1)\<close> of
  player 2.  The recomputed result is \<open>1\<close> (draw), not \<open>3\<close>: the test for a full board
  comes first and returns before any scan.
\<close>

theorem full_board_win_reported_draw:
  "make_moves (C4Board_init 5 2 4) [0, 3, 1, 0, 2, 1, 4, 2, 4] =
     Inr \<lparr> board = [[False, True], [False, True], [False, True], [True], [False, False]],
           size_cr = (5, 2), connect_num = 4, result = 0, win_reason = 0, turn = True,
           win_locs = [] \<rparr>
   \<and> make_moves (C4Board_init 5 2 4) [0, 3, 1, 0, 2, 1, 4, 2, 4, 3] =
     Inr \<lparr> board = [[False, True], [False, True], [False, True], [True, True], [False, False]],
           size_cr = (5, 2), connect_num = 4, result = 1, win_reason = 0, turn = False,
           win_locs = [] \<rparr>"
  by code_simp

subsection \<open>Moves when four in a line win\<close>

lemma scan_inner_total:
  "\<forall>j \<in> set js. \<exists>r. p j = Inr r \<Longrightarrow> \<exists>r. scan_inner p js = Inr r"
  by (induction js) (auto split: sum.splits)

lemma scan_outer_total:
  "(\<And>i. i \<in> set is \<Longrightarrow> \<exists>js. rng i = Inr js \<and> (\<forall>j \<in> set js. \<exists>r. p i j = Inr r))
     \<Longrightarrow> \<exists>r. scan_outer rng p is = Inr r"
proof (induction "is")
  case Nil
  show ?case by simp
next
  case (Cons i "is")
  from Cons.prems[of i] obtain js where js: "rng i = Inr js"
    and tot: "\<forall>j \<in> set js. \<exists>r. p i j = Inr r" by auto
  from scan_inner_total[OF tot] obtain r where r: "scan_inner (p i) js = Inr r"
    by blast
  from Cons.IH Cons.prems obtain r' where "scan_outer rng p is = Inr r'" by auto
  with js r show ?case by (cases r) auto
qed

lemma scan_inner_hit: "scan_inner p js = Inr (Some j) \<Longrightarrow> p j = Inr True"
  by (induction js) (auto split: sum.splits if_splits)

lemma scan_outer_hit: "scan_outer rng p is = Inr (Some (i, j)) \<Longrightarrow> p i j = Inr True"
  by (induction "is") (auto split: sum.splits if_splits option.splits dest: scan_inner_hit)

lemma chain_eq_first: "chain_eq a x y z = Inr r \<Longrightarrow> \<exists>v. a = Inr v"
  by (cases a) (auto simp: chain_eq_def ebind_def)

lemma eand_True: "eand a x = Inr True \<Longrightarrow> x = Inr True"
  by (auto simp: eand_def split: sum.splits if_splits)

lemma line_at_hit: "line_at bd d i j = Inr True \<Longrightarrow> \<exists>v. cell bd i j = Inr v"
  unfolding line_at_def by (blast dest: eand_True chain_eq_first)

lemma column_at_hit: "column_at bd i j = Inr True \<Longrightarrow> \<exists>v. cell bd i j = Inr v"
  unfolding column_at_def by (blast dest: chain_eq_first)

lemma py_get_in_range: "0 \<le> i \<Longrightarrow> i < int (length xs) \<Longrightarrow> py_get xs i = Inr (xs ! nat i)"
  by (simp add: py_get_def py_index_def)

lemma line_at_total:
  assumes "0 \<le> i" "i + 3 < int (length bd)" "0 \<le> j" "0 \<le> j + 3 * d"
  shows "\<exists>r. line_at bd d i j = Inr r"
proof -
  have g: "py_get bd i = Inr (bd ! nat i)" "py_get bd (i + 1) = Inr (bd ! nat (i + 1))"
    "py_get bd (i + 2) = Inr (bd ! nat (i + 2))" "py_get bd (i + 3) = Inr (bd ! nat (i + 3))"
    using assms(1,2) by (simp_all add: py_get_in_range)
  have n: "0 \<le> j + d" "0 \<le> j + 2 * d" using assms(3,4) by linarith+
  show ?thesis
    using assms(3,4) n
    by (auto simp: line_at_def col_longer_def cell_def chain_eq_def eand_def ebind_def g
        py_get_in_range)
qed

lemma column_at_total:
  assumes "0 \<le> col" "col < int (length bd)" "0 \<le> piece"
    "piece + 3 < int (length (bd ! nat col))"
  shows "\<exists>r. column_at bd col piece = Inr r"
  using assms
  by (auto simp: column_at_def cell_def chain_eq_def ebind_def py_get_in_range)

lemma find_run_total:
  assumes cn: "connect_num b = 4" and len: "int (length (board b)) = fst (size_cr b)"
  shows "\<exists>r. find_run b = Inr r"
proof -
  have cl: "\<And>i. 0 \<le> i \<Longrightarrow> i < fst (size_cr b) \<Longrightarrow>
              col_len (board b) i = Inr (int (length (board b ! nat i)))"
    using len by (simp add: col_len_def ebind_def py_get_in_range)
  have up: "\<exists>r. scan_diag_up b = Inr r"
    unfolding scan_diag_up_def
    by (rule scan_outer_total) (auto simp: cn py_range_def cl ebind_def len intro!: line_at_total)
  have down: "\<exists>r. scan_diag_down b = Inr r"
    unfolding scan_diag_down_def
    by (rule scan_outer_total) (auto simp: cn py_range_def cl ebind_def len intro!: line_at_total)
  have row: "\<exists>r. scan_row b = Inr r"
    unfolding scan_row_def
    by (rule scan_outer_total) (auto simp: cn py_range_def cl ebind_def len intro!: line_at_total)
  have col: "\<exists>r. scan_column b = Inr r"
    unfolding scan_column_def
    by (rule scan_outer_total)
       (auto simp: cn py_range_def cl ebind_def len[symmetric] intro!: column_at_total)
  from up down row col show ?thesis
    by (auto simp: find_run_def or_else_def split: option.splits)
qed

lemma find_run_hit:
  "find_run b = Inr (Some (i, j)) \<Longrightarrow> \<exists>v. cell (board b) i j = Inr v"
  by (auto simp: find_run_def or_else_def scan_diag_up_def scan_diag_down_def scan_row_def
        scan_column_def split: sum.splits option.splits
      dest!: scan_outer_hit dest: line_at_hit column_at_hit)

lemma check_result_total:
  assumes "connect_num b = 4" and "int (length (board b)) = fst (size_cr b)"
  shows "\<exists>r. check_result b = Inr (b\<lparr>result := r\<rparr>)"
proof (cases "list_all (\<lambda>col. int (length col) = snd (size_cr b)) (board b)")
  case True
  then show ?thesis by (intro exI[of _ 1]) (simp add: check_result_def)
next
  case False
  from find_run_total[OF assms] obtain r where r: "find_run b = Inr r" by blast
  show ?thesis
  proof (cases r)
    case None
    with r False show ?thesis by (intro exI[of _ 0]) (simp add: check_result_def)
  next
    case (Some ij)
    obtain i j where ij: "ij = (i, j)" by (cases ij)
    with r Some find_run_hit[of b i j] obtain v where "cell (board b) i j = Inr v" by auto
    with r Some ij False show ?thesis
      by (intro exI[of _ "winner_code v"]) (simp add: check_result_def)
  qed
qed

text \<open>
  With \<open>connect_num = 4\<close> on a board that holds as many columns as configured,
  \<open>check_result\<close> never raises, and \<open>make_move_at_column\<close> returns \<open>False\<close> without a
  change exactly for a column out of range or holding \<open>size[1]\<close> pieces, and
  otherwise appends the mover's piece, flips the turn, sets the result and
  returns \<open>True\<close>.
\<close>

lemma make_move_at_column_connect_4:
  assumes cn: "connect_num b = 4" and len: "int (length (board b)) = fst (size_cr b)"
  shows "(col < 0 \<or> fst (size_cr b) \<le> col \<or> int (length (board b ! nat col)) = snd (size_cr b)
           \<longrightarrow> make_move_at_column b col = Inr (False, b))
       \<and> (0 \<le> col \<and> col < fst (size_cr b) \<and> int (length (board b ! nat col)) \<noteq> snd (size_cr b)
           \<longrightarrow> (\<exists>r. make_move_at_column b col =
                  Inr (True, b\<lparr>board := (board b)[nat col := board b ! nat col @ [turn b]],
                                 turn := \<not> turn b, result := r\<rparr>)))"
proof (intro conjI impI)
  assume "col < 0 \<or> fst (size_cr b) \<le> col \<or> int (length (board b ! nat col)) = snd (size_cr b)"
  then show "make_move_at_column b col = Inr (False, b)"
    using len by (auto simp: make_move_at_column_def py_get_def py_index_def)
next
  assume a: "0 \<le> col \<and> col < fst (size_cr b) \<and> int (length (board b ! nat col)) \<noteq> snd (size_cr b)"
  let ?b1 = "b\<lparr>board := (board b)[nat col := board b ! nat col @ [turn b]], turn := \<not> turn b\<rparr>"
  have "connect_num ?b1 = 4" "int (length (board ?b1)) = fst (size_cr ?b1)"
    using cn len by simp_all
  from check_result_total[OF this] obtain r where "check_result ?b1 = Inr (?b1\<lparr>result := r\<rparr>)"
    by blast
  with a len show "\<exists>r. make_move_at_column b col =
                  Inr (True, b\<lparr>board := (board b)[nat col := board b ! nat col @ [turn b]],
                                 turn := \<not> turn b, result := r\<rparr>)"
    by (auto simp: make_move_at_column_def py_get_def py_index_def)
qed

text \<open>
  Claim C7 (the code departs from it).  On a board of 3 columns and 3 rows with
  connect 3, after the moves 0 and 1 the column 2 is in range and empty, and
  \<open>make_move_at_column\<close> on it neither returns \<open>True\<close> nor leaves the board alone: the
  row scan of \<open>check_result\<close> reads \<open>self._board[3]\<close> and raises IndexError, after
  the piece was appended and the turn flipped.
\<close>

theorem make_move_raises_connect_3:
  "make_moves (C4Board_init 3 3 3) [0, 1] =
     Inr \<lparr> board = [[False], [True], []], size_cr = (3, 3), connect_num = 3, result = 0,
           win_reason = 0, turn = False, win_locs = [] \<rparr>
   \<and> make_move_at_column
       \<lparr> board = [[False], [True], []], size_cr = (3, 3), connect_num = 3, result = 0,
         win_reason = 0, turn = False, win_locs = [] \<rparr> 2 =
     Inl (IndexError,
          \<lparr> board = [[False], [True], [False]], size_cr = (3, 3), connect_num = 3, result = 0,
            win_reason = 0, turn = True, win_locs = [] \<rparr>)"
  by code_simp

section \<open>Bounds of the search value\<close>

lemma evaluate_position_bounds: "- 100 \<le> evaluate_position b \<and> evaluate_position b \<le> 100"
  by (simp add: evaluate_position_def Let_def)

lemma ttable_ok_store:
  "ttable_ok e \<Longrightarrow> - 100 \<le> v \<Longrightarrow> v \<le> 100 \<Longrightarrow> ttable_ok (e\<lparr>ttable := (ttable e)(k \<mapsto> v)\<rparr>)"
  by (simp add: ttable_ok_def)

lemma ttable_ok_lookups: "ttable_ok (e\<lparr>priv_lookups := n\<rparr>) = ttable_ok e"
  by (simp add: ttable_ok_def)

lemma negamax_lim_bounds:
  "ttable_ok e \<Longrightarrow> negamax_lim dec lim e b alpha beta ply = Inr (v, b', e')
     \<Longrightarrow> - 100 \<le> v \<and> v \<le> 100 \<and> ttable_ok e' \<and> PLY_LIMIT e' = PLY_LIMIT e"
  and negamax_moves_bounds:
  "ttable_ok e \<Longrightarrow> - 100 \<le> best_value \<Longrightarrow> best_value \<le> 100
     \<Longrightarrow> negamax_moves dec lim e b alpha beta ply best_value ms = Inr (v, b', e')
     \<Longrightarrow> - 100 \<le> v \<and> v \<le> 100 \<and> ttable_ok e' \<and> PLY_LIMIT e' = PLY_LIMIT e"
proof (induction dec lim e b alpha beta ply and dec lim e b alpha beta ply best_value ms
       arbitrary: v b' e' and v b' e' rule: negamax_lim_negamax_moves.induct)
  case (1 dec lim e b alpha beta ply)
  show ?case
  proof (cases "lim \<le> ply \<or> 2 \<le> get_result b \<or> get_result b = 1")
    case True
    with "1.prems" show ?thesis
      using evaluate_position_bounds[of b] by (auto split: if_splits)
  next
    case False
    note nf = False
    show ?thesis
    proof (cases "ttable e (get_fen b)")
      case (Some t)
      with nf "1.prems" have "v = t" "e' = e\<lparr>priv_lookups := priv_lookups e + 1\<rparr>"
        by auto
      moreover from Some "1.prems"(1) have "- 100 \<le> t \<and> t \<le> 100"
        by (auto simp: ttable_ok_def)
      ultimately show ?thesis using "1.prems"(1) by (simp add: ttable_ok_def)
    next
      case None
      with nf "1.prems"(2) obtain ms bv b1 e1 where
        ms: "all_available_moves b = Inr ms"
        and lp: "negamax_moves dec lim e b alpha beta ply (- 100) ms = Inr (bv, b1, e1)"
        and res: "v = bv" "e' = e1\<lparr>ttable := (ttable e1)(get_fen b1 \<mapsto> bv)\<rparr>"
        by (auto split: sum.splits prod.splits)
      from nf None ms have
        "- 100 \<le> bv \<and> bv \<le> 100 \<and> ttable_ok e1 \<and> PLY_LIMIT e1 = PLY_LIMIT e"
        using "1.IH"[OF _ _ _ _ ms "1.prems"(1) _ _ lp] by auto
      then show ?thesis using res by (simp add: ttable_ok_store)
    qed
  qed
next
  case (2 dec lim e b alpha beta ply best_value)
  then show ?case by simp
next
  case (3 dec lim e b alpha beta ply best_value m ms)
  from "3.prems"(4) obtain ok b1 r b2 e2 b3 where
    mv: "make_move_at_column b m = Inr (ok, b1)"
    and rc: "negamax_lim dec lim e b1 (- beta) (- alpha) (ply + 1) = Inr (r, b2, e2)"
    and sp: "set_position dec b2 (get_fen b) = Inr b3"
    and rest: "(if beta \<le> max alpha (- r) then Inr (max best_value (- r), b3, e2)
                else negamax_moves dec lim e2 b3 (max alpha (- r)) beta ply (max best_value (- r)) ms)
               = Inr (v, b', e')"
    by (auto split: sum.splits prod.splits)
  have r: "- 100 \<le> r \<and> r \<le> 100 \<and> ttable_ok e2 \<and> PLY_LIMIT e2 = PLY_LIMIT e"
    using "3.IH"(1)[OF mv refl "3.prems"(1) rc] .
  then have bv: "- 100 \<le> max best_value (- r)" "max best_value (- r) \<le> 100"
    using "3.prems"(2,3) by auto
  show ?case
  proof (cases "beta \<le> max alpha (- r)")
    case True
    with rest r bv show ?thesis by auto
  next
    case False
    with rest have
      "negamax_moves dec lim e2 b3 (max alpha (- r)) beta ply (max best_value (- r)) ms = Inr (v, b', e')"
      by simp
    from "3.IH"(2)[OF mv refl rc refl refl sp False _ bv this] r
    show ?thesis by simp
  qed
qed

lemma bestmoves_loop_ttable_ok:
  "ttable_ok e \<Longrightarrow> bestmoves_loop dec currfen e b evals cols = Inr (evals', b', e')
     \<Longrightarrow> ttable_ok e'"
proof (induction cols arbitrary: e b evals)
  case Nil
  then show ?case by simp
next
  case (Cons c cols)
  from Cons.prems(2) obtain ok b1 r b2 e2 b3 where
    rc: "negamax dec e b1 (- 100) 100 0 = Inr (r, b2, e2)"
    and rest: "bestmoves_loop dec currfen e2 b3 (dict_set evals c (- r)) cols = Inr (evals', b', e')"
    by (auto split: sum.splits prod.splits)
  have "ttable_ok e2"
    using negamax_lim_bounds[OF Cons.prems(1) rc[unfolded negamax_def]] by simp
  then show ?case using Cons.IH rest by blast
qed

lemma bestmoves_ttable_ok:
  assumes "ttable_ok e" and "bestmoves dec e b = Inr (cols, b', e')"
  shows "ttable_ok e'"
proof -
  from assms(2) obtain ms evals e1 where
    lp: "bestmoves_loop dec (get_fen b) (e\<lparr>lookups := Some 0\<rparr>) b [] ms = Inr (evals, b', e1)"
    and e': "e' = e1\<lparr>priv_lookups := 0\<rparr>"
    by (auto simp: bestmoves_def split: sum.splits prod.splits)
  have "ttable_ok (e\<lparr>lookups := Some 0\<rparr>)" using assms(1) by (simp add: ttable_ok_def)
  from bestmoves_loop_ttable_ok[OF this lp] e' show ?thesis
    by (simp add: ttable_ok_lookups)
qed

lemma engine_state_ttable_ok: "engine_state e \<Longrightarrow> ttable_ok e"
proof (induction rule: engine_state.induct)
  case fresh
  show ?case by (simp add: ttable_ok_def C4Engine_init_def)
next
  case (limit e lim)
  then show ?case by (simp add: ttable_ok_def)
next
  case (searched e dec b alpha beta ply v b' e')
  from negamax_lim_bounds[OF searched.IH searched.hyps(2)[unfolded negamax_def]]
  show ?case by blast
next
  case (advised e dec b cols b' e')
  then show ?case using bestmoves_ttable_ok by blast
qed

text \<open>
  Claim C9.  For every engine a session can hold (fresh, or left by earlier
  searches, with any \<open>PLY_LIMIT\<close>), every board, every window \<open>alpha\<close>, \<open>beta\<close> and
  every \<open>ply\<close>, the value a \<open>negamax\<close> call returns lies in \<open>[-100, 100]\<close>; this
  covers the values read from the transposition table and the static
  evaluation at the ply limit.
\<close>

theorem negamax_value_bounded:
  assumes "engine_state e" and "negamax dec e b alpha beta ply = Inr (v, b', e')"
  shows "- 100 \<le> v \<and> v \<le> 100"
  using negamax_lim_bounds[OF engine_state_ttable_ok[OF assms(1)] assms(2)[unfolded negamax_def]]
  by blast

theorem negamax_value_bounded_witness:
  "engine_state C4Engine_init
   \<and> (\<exists>e'. negamax arabic_indic C4Engine_init
              \<lparr> board = [[False], []], size_cr = (2, 1), connect_num = 4, result = 0,
                win_reason = 0, turn = True, win_locs = [] \<rparr> (- 100) 100 0
            = Inr (0, \<lparr> board = [[False], []], size_cr = (2, 1), connect_num = 4, result = 1,
                       win_reason = 0, turn = True, win_locs = [] \<rparr>, e')
          \<and> - 100 \<le> (0::int) \<and> (0::int) \<le> 100)"
proof -
  let ?b = "\<lparr> board = [[False], []], size_cr = (2, 1), connect_num = 4, result = 0,
              win_reason = 0, turn = True, win_locs = [] \<rparr>"
  let ?b' = "\<lparr> board = [[False], []], size_cr = (2, 1), connect_num = 4, result = 1,
              win_reason = 0, turn = True, win_locs = [] \<rparr>"
  have "(case negamax arabic_indic C4Engine_init ?b (- 100) 100 0 of
           Inl err \<Rightarrow> None | Inr (v, b', e') \<Rightarrow> Some (v, b')) = Some (0, ?b')"
    by code_simp
  then obtain e' where
    h: "negamax arabic_indic C4Engine_init ?b (- 100) 100 0 = Inr (0, ?b', e')"
    by (cases "negamax arabic_indic C4Engine_init ?b (- 100) 100 0") auto
  have "- 100 \<le> (0::int) \<and> (0::int) \<le> 100"
    by (rule negamax_value_bounded[OF engine_state.fresh h])
  with h engine_state.fresh show ?thesis by blast
qed

section \<open>bestmoves and the board\<close>

text \<open>
  What \<open>bestmoves\<close> does restore: when it returns, the board has the columns
  and the turn it had at the call.
\<close>

lemma available_in_nonempty:
  "available_in bd rows is = Inr (m # ms) \<Longrightarrow> bd \<noteq> []"
  by (cases "is") (auto simp: py_get_def split: if_splits sum.splits)

lemma bestmoves_loop_restores:
  assumes "board b0 \<noteq> []"
  shows "bestmoves_loop dec (get_fen b0) e b evals cols = Inr (evals', b', e')
           \<Longrightarrow> board b = board b0 \<and> turn b = turn b0
           \<Longrightarrow> board b' = board b0 \<and> turn b' = turn b0"
proof (induction cols arbitrary: e b evals)
  case Nil
  then show ?case by simp
next
  case (Cons c cols)
  from Cons.prems(1) obtain r b2 e2 b3 where
    sp: "set_position dec b2 (get_fen b0) = Inr b3"
    and rest: "bestmoves_loop dec (get_fen b0) e2 b3 (dict_set evals c (- r)) cols = Inr (evals', b', e')"
    by (auto split: sum.splits prod.splits)
  from sp get_fen_decode[OF assms, of dec b2] have "b3 = b2\<lparr>board := board b0, turn := turn b0\<rparr>"
    by simp
  then have "board b3 = board b0 \<and> turn b3 = turn b0"
    by simp
  with Cons.IH[OF rest] show ?case by simp
qed

lemma bestmoves_restores_position:
  assumes "bestmoves dec e b = Inr (cols, b', e')"
  shows "board b' = board b \<and> turn b' = turn b"
proof -
  from assms obtain ms evals e1 where
    av: "all_available_moves b = Inr ms"
    and lp: "bestmoves_loop dec (get_fen b) (e\<lparr>lookups := Some 0\<rparr>) b [] ms = Inr (evals, b', e1)"
    and mx: "py_max (map snd evals) \<noteq> Inl ValueError"
    by (auto simp: bestmoves_def py_max_def split: sum.splits prod.splits list.splits)
  show ?thesis
  proof (cases ms)
    case Nil
    with lp mx show ?thesis by (simp add: py_max_def)
  next
    case (Cons m ms')
    with av have "board b \<noteq> []"
      using available_in_nonempty by (auto simp: all_available_moves_def)
    from bestmoves_loop_restores[OF this lp] show ?thesis by simp
  qed
qed

text \<open>
  Claim C2 (the code departs from it).  \<open>bestmoves\<close> restores the board with
  \<open>set_position\<close>, which installs columns and turn and leaves \<open>_result\<close> as the
  last \<open>check_result\<close> of the search set it.  On the default board, after the 41
  moves below one cell is free and the result is \<open>0\<close>; \<open>bestmoves\<close> returns \<open>[6]\<close>
  and hands the board back with the same columns and turn and the result \<open>1\<close>
  (draw).  The same on the fresh board of 2 columns and 1 row.
\<close>

theorem bestmoves_leaves_stale_result:
  "make_moves (C4Board_init 7 6 4)
     [0, 0, 0, 0, 0, 0, 1, 1, 1, 1, 1, 1, 2, 2, 2, 2, 2, 2, 6, 3, 3, 3, 3, 3, 3,
      4, 4, 4, 4, 4, 4, 5, 5, 5, 5, 5, 5, 6, 6, 6, 6] =
     Inr \<lparr> board = [[False, True, False, True, False, True], [False, True, False, True, False, True],
                    [False, True, False, True, False, True], [True, False, True, False, True, False],
                    [True, False, True, False, True, False], [True, False, True, False, True, False],
                    [False, True, False, True, False]],
           size_cr = (7, 6), connect_num = 4, result = 0, win_reason = 0, turn = True,
           win_locs = [] \<rparr>
   \<and> (case bestmoves dec C4Engine_init
         \<lparr> board = [[False, True, False, True, False, True], [False, True, False, True, False, True],
                    [False, True, False, True, False, True], [True, False, True, False, True, False],
                    [True, False, True, False, True, False], [True, False, True, False, True, False],
                    [False, True, False, True, False]],
           size_cr = (7, 6), connect_num = 4, result = 0, win_reason = 0, turn = True,
           win_locs = [] \<rparr> of
         Inl err \<Rightarrow> None
       | Inr (cols, b', e') \<Rightarrow> Some (cols, b')) =
     Some ([6],
       \<lparr> board = [[False, True, False, True, False, True], [False, True, False, True, False, True],
                    [False, True, False, True, False, True], [True, False, True, False, True, False],
                    [True, False, True, False, True, False], [True, False, True, False, True, False],
                    [False, True, False, True, False]],
           size_cr = (7, 6), connect_num = 4, result = 1, win_reason = 0, turn = True,
           win_locs = [] \<rparr>)
   \<and> (case bestmoves dec C4Engine_init (C4Board_init 2 1 4) of
         Inl err \<Rightarrow> None
       | Inr (cols, b', e') \<Rightarrow> Some (cols, b')) =
     Some ([0, 1], \<lparr> board = [[], []], size_cr = (2, 1), connect_num = 4, result = 1,
                     win_reason = 0, turn = False, win_locs = [] \<rparr>)"
  by code_simp

text \<open>
  Claim C6, as the code has it.  On a board without an available move
  \<open>bestmoves\<close> raises the ValueError of \<open>max()\<close> over no evaluations: it fails and
  returns no list of columns, but the exception is the built-in one, not an
  InvalidState error.
\<close>

theorem bestmoves_no_moves:
  assumes "all_available_moves b = Inr []"
  shows "bestmoves dec e b = Inl ValueError"
  using assms by (simp add: bestmoves_def py_max_def)

theorem bestmoves_no_moves_witness:
  "all_available_moves
     \<lparr> board = [[False, True], [False, True], [False, True], [True, True], [False, False]],
       size_cr = (5, 2), connect_num = 4, result = 1, win_reason = 0, turn = False,
       win_locs = [] \<rparr> = Inr []
   \<and> bestmoves arabic_indic C4Engine_init
     \<lparr> board = [[False, True], [False, True], [False, True], [True, True], [False, False]],
       size_cr = (5, 2), connect_num = 4, result = 1, win_reason = 0, turn = False,
       win_locs = [] \<rparr> = Inl ValueError"
proof -
  let ?b = "\<lparr> board = [[False, True], [False, True], [False, True], [True, True], [False, False]],
       size_cr = (5, 2), connect_num = 4, result = 1, win_reason = 0, turn = False,
       win_locs = [] \<rparr>"
  have h: "all_available_moves ?b = Inr []" by code_simp
  have "bestmoves arabic_indic C4Engine_init ?b = Inl ValueError"
    by (rule bestmoves_no_moves[OF h])
  with h show ?thesis by blast
qed

text \<open>
  Claim C6 as stated fails on the full board of one column and one row: the
  failure is ValueError, which is not InvalidState.
\<close>

theorem bestmoves_no_moves_not_InvalidState:
  "all_available_moves
     \<lparr> board = [[False]], size_cr = (1, 1), connect_num = 4, result = 1, win_reason = 0,
       turn = True, win_locs = [] \<rparr> = Inr []
   \<and> bestmoves arabic_indic C4Engine_init
     \<lparr> board = [[False]], size_cr = (1, 1), connect_num = 4, result = 1, win_reason = 0,
       turn = True, win_locs = [] \<rparr> = Inl ValueError
   \<and> bestmoves arabic_indic C4Engine_init
     \<lparr> board = [[False]], size_cr = (1, 1), connect_num = 4, result = 1, win_reason = 0,
       turn = True, win_locs = [] \<rparr> \<noteq> Inl InvalidState"
proof -
  let ?b = "\<lparr> board = [[False]], size_cr = (1, 1), connect_num = 4, result = 1, win_reason = 0,
       turn = True, win_locs = [] \<rparr>"
  have h: "all_available_moves ?b = Inr []" by code_simp
  then have "bestmoves arabic_indic C4Engine_init ?b = Inl ValueError"
    by (simp add: bestmoves_def py_max_def)
  with h show ?thesis by simp
qed

section \<open>Decoding arbitrary strings\<close>

lemma count_split_sp: "length (split_sp s) = Suc (count_list s (cp (CHR '' '')))"
  by (induction s) (auto split: list.splits)

lemma py_int_char_ascii:
  "c < 128 \<Longrightarrow>
     py_int_char dec c =
       (if c \<in> set (lit ''0123456789'') then Some (int c - 48) else None)"
  by (auto simp: py_int_char_def lit_def cp_def; arith)

lemma parse_chunk_filter:
  "parse_chunk tok =
     map (\<lambda>c. c = cp (CHR ''2'')) (filter (\<lambda>c. c = cp (CHR ''1'') \<or> c = cp (CHR ''2'')) tok)"
  by (induction tok) (auto simp: cp_def)

text \<open>
  Claim C5, as the code has it.  \<open>set_position\<close> validates nothing.  It raises
  only for the empty string (IndexError) and for a string whose last character
  is no decimal digit (ValueError, when \<open>int()\<close> of that character has no value),
  and then leaves the board with an empty column list.  Every other string is
  accepted: the turn is player 2 exactly when the value \<open>n\<close> of the last
  character is 2; with the last two characters cut off, the string is split at
  every space, each token gives one column (rightmost first) made of its \<open>'1'\<close>
  and \<open>'2'\<close> characters, every other character being skipped; so the board gets
  one column more than there are spaces, whatever the configured column count,
  and \<open>size\<close> is not touched.  An ASCII last character has a value exactly when
  it is one of \<open>'0'\<close> to \<open>'9'\<close>; for any other character the Unicode table \<open>dec\<close>
  decides, whatever that table is.
\<close>

theorem set_position_unvalidated:
  "(fen = [] \<longrightarrow> set_position dec b fen = Inl (IndexError, b\<lparr>board := []\<rparr>))
   \<and> (fen \<noteq> [] \<and> py_int_char dec (last fen) = None \<longrightarrow>
        set_position dec b fen = Inl (ValueError, b\<lparr>board := []\<rparr>))
   \<and> (fen \<noteq> [] \<and> py_int_char dec (last fen) = Some n \<longrightarrow>
        set_position dec b fen =
          Inr (b\<lparr>board := rev (map (\<lambda>tok. map (\<lambda>c. c = cp (CHR ''2''))
                                       (filter (\<lambda>c. c = cp (CHR ''1'') \<or> c = cp (CHR ''2'')) tok))
                                (split_sp (take (length fen - 2) fen))),
                 turn := (n = 2)\<rparr>)
        \<and> length (split_sp (take (length fen - 2) fen)) =
            Suc (count_list (take (length fen - 2) fen) (cp (CHR '' ''))))
   \<and> (last fen < 128 \<longrightarrow>
        py_int_char dec (last fen) =
          (if last fen \<in> set (lit ''0123456789'') then Some (int (last fen) - 48) else None))
   \<and> (128 \<le> last fen \<longrightarrow> py_int_char dec (last fen) = dec (last fen))"
proof (intro conjI impI)
  assume "fen = []"
  then show "set_position dec b fen = Inl (IndexError, b\<lparr>board := []\<rparr>)"
    by (simp add: set_position_def)
next
  assume "fen \<noteq> [] \<and> py_int_char dec (last fen) = None"
  then show "set_position dec b fen = Inl (ValueError, b\<lparr>board := []\<rparr>)"
    by (simp add: set_position_def)
next
  assume a: "fen \<noteq> [] \<and> py_int_char dec (last fen) = Some n"
  have m: "map parse_chunk =
             map (\<lambda>tok. map (\<lambda>c. c = cp (CHR ''2''))
                          (filter (\<lambda>c. c = cp (CHR ''1'') \<or> c = cp (CHR ''2'')) tok))"
    by (rule arg_cong[where f = map]) (rule ext, rule parse_chunk_filter)
  show "set_position dec b fen =
          Inr (b\<lparr>board := rev (map (\<lambda>tok. map (\<lambda>c. c = cp (CHR ''2''))
                                       (filter (\<lambda>c. c = cp (CHR ''1'') \<or> c = cp (CHR ''2'')) tok))
                                (split_sp (take (length fen - 2) fen))),
                 turn := (n = 2)\<rparr>)"
    using a by (simp add: set_position_def m)
next
  show "length (split_sp (take (length fen - 2) fen)) =
            Suc (count_list (take (length fen - 2) fen) (cp (CHR '' '')))"
    by (rule count_split_sp)
next
  assume "last fen < 128"
  then show "py_int_char dec (last fen) =
          (if last fen \<in> set (lit ''0123456789'') then Some (int (last fen) - 48) else None)"
    by (rule py_int_char_ascii)
next
  assume "128 \<le> last fen"
  then show "py_int_char dec (last fen) = dec (last fen)"
    by (simp add: py_int_char_def)
qed

theorem set_position_unvalidated_witness:
  "set_position arabic_indic (C4Board_init 7 6 4) [] =
     Inl (IndexError, (C4Board_init 7 6 4)\<lparr>board := []\<rparr>)
   \<and> set_position arabic_indic (C4Board_init 7 6 4) (lit ''12 x'') =
     Inl (ValueError, (C4Board_init 7 6 4)\<lparr>board := []\<rparr>)
   \<and> set_position arabic_indic (C4Board_init 7 6 4) (lit ''1x2 21 3'') =
     Inr ((C4Board_init 7 6 4)\<lparr>board := [[True, False], [False, True]], turn := False\<rparr>)
   \<and> set_position arabic_indic (C4Board_init 7 6 4) (lit ''1 '' @ [1634]) =
     Inr ((C4Board_init 7 6 4)\<lparr>board := [[False]], turn := True\<rparr>)"
proof -
  let ?B = "C4Board_init 7 6 4"
  have v: "lit ''12 x'' \<noteq> [] \<and> py_int_char arabic_indic (last (lit ''12 x'')) = None"
    "lit ''1x2 21 3'' \<noteq> [] \<and> py_int_char arabic_indic (last (lit ''1x2 21 3'')) = Some 3"
    "lit ''1 '' @ [1634] \<noteq> [] \<and> py_int_char arabic_indic (last (lit ''1 '' @ [1634])) = Some 2"
    by (simp_all add: lit_def cp_def py_int_char_def arabic_indic_def)
  have s1: "set_position arabic_indic ?B [] = Inl (IndexError, ?B\<lparr>board := []\<rparr>)"
    using set_position_unvalidated[where fen = "[]" and dec = arabic_indic and b = ?B]
    by blast
  have s2: "set_position arabic_indic ?B (lit ''12 x'') = Inl (ValueError, ?B\<lparr>board := []\<rparr>)"
    using set_position_unvalidated[where fen = "lit ''12 x''" and dec = arabic_indic and b = ?B]
      v(1) by blast
  have s3: "set_position arabic_indic ?B (lit ''1x2 21 3'') =
      Inr (?B\<lparr>board := [[True, False], [False, True]], turn := False\<rparr>)"
    using set_position_unvalidated[where fen = "lit ''1x2 21 3''" and dec = arabic_indic
        and b = ?B and n = 3] v(2)
    by (simp add: lit_def cp_def)
  have s4: "set_position arabic_indic ?B (lit ''1 '' @ [1634]) =
      Inr (?B\<lparr>board := [[False]], turn := True\<rparr>)"
    using set_position_unvalidated[where fen = "lit ''1 '' @ [1634]" and dec = arabic_indic
        and b = ?B and n = 2] v(3)
    by (simp add: lit_def cp_def)
  from s1 s2 s3 s4 show ?thesis by blast
qed

text \<open>
  Claim C5 as stated fails at \<open>"1x2 21 3"\<close> on the default board: the turn marker
  is \<open>'3'\<close>, a token holds \<open>'x'\<close>, there are two tokens for seven columns, and the
  call returns normally with a board of two columns.  The string is ASCII, so
  no entry of the Unicode table is read.
\<close>

theorem set_position_accepts_malformed:
  "set_position arabic_indic (C4Board_init 7 6 4) (lit ''1x2 21 3'') =
     Inr \<lparr> board = [[True, False], [False, True]], size_cr = (7, 6), connect_num = 4,
           result = 0, win_reason = 0, turn = False, win_locs = [] \<rparr>"
  by (simp add: set_position_def py_int_char_def C4Board_init_def py_range_def lit_def cp_def)

end
